theory Spec2Isabelle
  imports Complex_Main "HOL-Library.Sublist" "HOL-Library.Log_Nat"
begin

section \<open>Time\<close>

text \<open>
  A Python \<open>datetime\<close> is modelled by the number of microseconds since
  0001-01-01T00:00:00 (proleptic Gregorian, the origin of \<open>date.toordinal\<close>, a Monday).
  A \<open>timedelta\<close> is a number of microseconds, so that adding and comparing are the
  integer operations. Python raises OverflowError for a \<open>timedelta\<close> of more than
  999999999 days and for a \<open>datetime\<close> outside the years 1..9999; the scheduler, the
  one place that adds a computed interval to the clock, checks both bounds.
\<close>

type_synonym datetime = int
type_synonym timedelta = int

definition us_per_day :: int where
  "us_per_day = 86400000000"

definition timedelta_days :: "int \<Rightarrow> timedelta" where
  "timedelta_days n = n * us_per_day"

definition timedelta_weeks :: "int \<Rightarrow> timedelta" where
  "timedelta_weeks n = timedelta_days (7 * n)"

text \<open>\<open>datetime.max\<close> is 9999-12-31T23:59:59.999999, the last microsecond of day 3652058.\<close>

definition datetime_max :: datetime where
  "datetime_max = 3652059 * us_per_day - 1"

definition datetime_ok :: "datetime \<Rightarrow> bool" where
  "datetime_ok t = (0 \<le> t \<and> t \<le> datetime_max)"

text \<open>The calendar day of a datetime, counted from 0001-01-01 as day 0.\<close>

definition date_of :: "datetime \<Rightarrow> int" where
  "date_of t = t div us_per_day"

text \<open>\<open>datetime.weekday()\<close>: Monday is 0, Sunday is 6.\<close>

definition weekday :: "datetime \<Rightarrow> int" where
  "weekday t = date_of t mod 7"

text \<open>
  \<open>strftime("%Y-%m-%d")\<close> prints the calendar day; two datetimes get the same text
  exactly when they fall on the same day, so the key is represented by the day itself.
\<close>

definition strftime_ymd :: "datetime \<Rightarrow> int" where
  "strftime_ymd t = date_of t"

section \<open>Errors\<close>

datatype error =
    HTTPException nat string
  | TypeError
  | ZeroDivisionError
  | OverflowError

section \<open>Numbers\<close>

text \<open>
  A Python float is an IEEE 754 double. A finite double is modelled by the real number
  it stands for, and every float operation rounds its exact result to the nearest
  double, a tie going to the even significand. \<open>ilog2 x\<close> is the binary exponent of a
  positive \<open>x\<close>: \<open>2 ^ ilog2 x \<le> x < 2 ^ (ilog2 x + 1)\<close>. \<open>fl\<close> rounds to 53 significant
  bits with an unbounded exponent; a result of magnitude \<open>2 ^ 1024\<close> or more is an
  overflow in the program, which the operations below raise. Subnormal numbers and
  NaN are not modelled; no value of the program comes near them. The scheduler and
  the accuracy percentage are computed with these operations; the mean score of a mock
  session is kept as the exact quotient.
\<close>

definition round_half_even :: "real \<Rightarrow> int" where
  "round_half_even x =
     (let f = \<lfloor>x\<rfloor>; d = x - of_int f
      in if d < 1 / 2 then f
         else if 1 / 2 < d then f + 1
         else if even f then f else f + 1)"

definition ilog2 :: "real \<Rightarrow> int" where
  "ilog2 x =
     (if 1 \<le> x then bitlen \<lfloor>x\<rfloor> - 1
      else (let k = bitlen \<lfloor>1 / x\<rfloor> - 1
            in if x * 2 ^ nat k = 1 then - k else - k - 1))"

definition fl :: "real \<Rightarrow> real" where
  "fl x =
     (if x = 0 then 0
      else (let q = 2 powi (ilog2 \<bar>x\<bar> - 52)
            in of_int (round_half_even (x / q)) * q))"

text \<open>
  The overflow threshold, and the conversion of an integer operand of a float
  operation: \<open>int too large to convert to float\<close> is an OverflowError.
\<close>

definition float_limit :: real where
  "float_limit = 2 ^ 1024"

definition float_of_int :: "int \<Rightarrow> error + real" where
  "float_of_int i =
     (if float_limit \<le> \<bar>fl (of_int i)\<bar> then Inl OverflowError else Inr (fl (of_int i)))"

text \<open>\<open>int(x)\<close> truncates toward zero.\<close>

definition py_int :: "real \<Rightarrow> int" where
  "py_int x = (if 0 \<le> x then \<lfloor>x\<rfloor> else \<lceil>x\<rceil>)"

text \<open>
  \<open>a / b\<close> on two integers is the exact quotient rounded once; a zero divisor raises
  ZeroDivisionError and a quotient too large for a float raises OverflowError.
\<close>

definition int_truediv :: "int \<Rightarrow> int \<Rightarrow> error + real" where
  "int_truediv a b =
     (if b = 0 then Inl ZeroDivisionError
      else if float_limit \<le> \<bar>fl (of_int a / of_int b)\<bar> then Inl OverflowError
      else Inr (fl (of_int a / of_int b)))"

text \<open>
  \<open>round(x, 1)\<close> on a float: the exact value of \<open>x\<close> is rounded to the nearest multiple
  of one tenth, a tie going to the even one, and that decimal number is converted back
  to the nearest double.
\<close>

definition py_round1 :: "real \<Rightarrow> real" where
  "py_round1 x = fl (of_int (round_half_even (x * 10)) / 10)"

section \<open>Stored entities\<close>

text \<open>
  The columns of \<open>ProblemAttempt\<close>. A nullable column is an option; \<open>patterns\<close> holds
  the JSON text of a list of strings and is kept as that list. \<open>id\<close> and
  \<open>created_at\<close> are filled in on insert.
\<close>

record attempt =
  attempt_id :: int
  user_id :: string
  created_at :: datetime
  title :: string
  difficulty :: string
  patterns :: "string list"
  statement :: string
  language :: string
  code :: string
  hints_used :: int
  verdict :: "string option"
  time_complexity :: "string option"
  space_complexity :: "string option"
  evaluation_markdown :: string
  next_review_at :: "datetime option"
  review_interval_days :: "int option"
  ease_factor :: "real option"
  company_style :: "string option"
  mock_session_id :: "string option"

section \<open>Review scheduler\<close>

text \<open>
  \<open>calculate_next_review(attempt, was_correct)\<close> computes the new interval and ease
  factor, assigns them to the attempt it is given, then computes the new review date
  from the clock, assigns it and returns it. The model returns the attempt as the call
  leaves it beside the result, also when the call raises. The first argument is the
  value of \<open>datetime.now(timezone.utc)\<close> that the function reads. The literals \<open>0.1\<close>,
  \<open>0.2\<close> and \<open>1.3\<close> are the nearest doubles; \<open>2.5\<close> is a double. Arithmetic on a column
  that is still \<open>None\<close> raises TypeError before anything is assigned, and so does a
  float overflow in the product (OverflowError). \<open>timedelta(days=n)\<close> raises
  OverflowError beyond 999999999 days, and adding it to the clock raises OverflowError
  past \<open>datetime.max\<close>: both after the interval and the ease factor have been assigned.
\<close>

definition calculate_next_review ::
  "datetime \<Rightarrow> attempt \<Rightarrow> bool \<Rightarrow> attempt \<times> (error + datetime)" where
  "calculate_next_review now a was_correct =
     (case (if was_correct then
              (case (review_interval_days a, ease_factor a) of
                 (Some i, Some e) \<Rightarrow>
                   (case float_of_int i of
                      Inl err \<Rightarrow> Inl err
                    | Inr fi \<Rightarrow>
                        (let p = fl (fi * e)
                         in if float_limit \<le> \<bar>p\<bar> then Inl OverflowError
                            else Inr (py_int p, min (5 / 2) (fl (e + fl (1 / 10))))))
               | _ \<Rightarrow> Inl TypeError)
            else
              (case ease_factor a of
                 Some e \<Rightarrow> Inr (1, max (fl (13 / 10)) (fl (e - fl (2 / 10))))
               | None \<Rightarrow> Inl TypeError))
      of Inl err \<Rightarrow> (a, Inl err)
       | Inr (new_interval, new_ease) \<Rightarrow>
           (let a1 = a\<lparr>review_interval_days := Some new_interval,
                       ease_factor := Some new_ease\<rparr>
            in if 999999999 < \<bar>new_interval\<bar> then (a1, Inl OverflowError)
               else (let next_review = now + timedelta_days new_interval
                     in if datetime_ok next_review
                        then (a1\<lparr>next_review_at := Some next_review\<rparr>, Inr next_review)
                        else (a1, Inl OverflowError))))"

text \<open>An attempt row as it is after insert, with the column defaults 1 and 2.5.\<close>

definition stored_attempt :: "int \<Rightarrow> string \<Rightarrow> datetime \<Rightarrow> string option \<Rightarrow> attempt" where
  "stored_attempt i u t v =
     \<lparr>attempt_id = i, user_id = u, created_at = t, title = ''Two Sum'',
      difficulty = ''Easy'', patterns = [''arrays''], statement = '''',
      language = ''python'', code = '''', hints_used = 0, verdict = v,
      time_complexity = None, space_complexity = None, evaluation_markdown = '''',
      next_review_at = Some t, review_interval_days = Some 1,
      ease_factor = Some (5 / 2), company_style = None, mock_session_id = None\<rparr>"

text \<open>
  Any finite sequence of review completions of one attempt, each with its own clock
  reading and outcome. A completion that raises is not committed: the stored attempt
  stays as it was.
\<close>

fun review_all :: "attempt \<Rightarrow> (datetime \<times> bool) list \<Rightarrow> attempt" where
  "review_all a [] = a"
| "review_all a ((now, was_correct) # rest) =
     (case calculate_next_review now a was_correct of
        (a', Inl err) \<Rightarrow> review_all a rest
      | (a', Inr next_review) \<Rightarrow> review_all a' rest)"

text \<open>
  The documented domain of the scheduler: an interval of at least one day and an ease
  factor between 1.3 and 2.5, the bounds being the doubles that the literals denote.
\<close>

definition in_domain :: "attempt \<Rightarrow> bool" where
  "in_domain a =
     (case (review_interval_days a, ease_factor a) of
        (Some i, Some e) \<Rightarrow> 1 \<le> i \<and> fl (13 / 10) \<le> e \<and> e \<le> 5 / 2
      | _ \<Rightarrow> False)"

section \<open>The store\<close>

record bookmark =
  bookmark_id :: int
  bm_user_id :: string
  bm_attempt_id :: int
  collection_name :: string
  bm_created_at :: datetime
  bm_notes :: "string option"

record mock_session =
  session_id :: string
  ms_user_id :: string
  ms_created_at :: datetime
  completed_at :: "datetime option"
  session_type :: string
  time_limit_minutes :: int
  num_problems :: int
  difficulties :: "string list"
  problems_completed :: int
  total_score :: "real option"

text \<open>The three tables, each in row order. A commit is the returned store.\<close>

record db =
  attempts :: "attempt list"
  bookmarks :: "bookmark list"
  mock_sessions :: "mock_session list"

text \<open>The row id given to the next inserted attempt: one more than the largest id.\<close>

definition next_attempt_id :: "db \<Rightarrow> int" where
  "next_attempt_id d = fold max (map attempt_id (attempts d)) 0 + 1"

text \<open>Writing back the one row that a query's \<open>first()\<close> returned.\<close>

fun replace_first :: "('a \<Rightarrow> bool) \<Rightarrow> 'a \<Rightarrow> 'a list \<Rightarrow> 'a list" where
  "replace_first P y [] = []"
| "replace_first P y (x # xs) = (if P x then y # xs else x # replace_first P y xs)"

section \<open>Saving an attempt\<close>

record problem_metadata =
  pm_title :: string
  pm_difficulty :: string
  pm_patterns :: "string list"
  pm_statement :: string

record save_attempt_request =
  req_userId :: string
  req_problem :: problem_metadata
  req_language :: string
  req_code :: string
  req_hintsUsed :: int
  req_verdict :: string
  req_timeComplexity :: "string option"
  req_spaceComplexity :: "string option"
  req_evaluationMarkdown :: string
  req_companyStyle :: "string option"
  req_mockSessionId :: "string option"

text \<open>
  \<open>save_attempt\<close> reads the clock three times: for \<open>next_review_at\<close> in the
  constructor, for the default of \<open>created_at\<close> on insert, and inside
  \<open>calculate_next_review\<close>. The row is inserted and committed, the scheduler then
  assigns its three fields and the row is committed again; if the scheduler raises,
  the first commit stands. The response \<open>{"success": True, "attemptId": id}\<close> is the id.
\<close>

definition save_attempt ::
  "datetime \<Rightarrow> datetime \<Rightarrow> datetime \<Rightarrow> db \<Rightarrow> save_attempt_request \<Rightarrow> db \<times> (error + int)" where
  "save_attempt now_ctor now_insert now_review d req =
     (let a = \<lparr>attempt_id = next_attempt_id d,
                user_id = req_userId req,
                created_at = now_insert,
                title = pm_title (req_problem req),
                difficulty = pm_difficulty (req_problem req),
                patterns = pm_patterns (req_problem req),
                statement = pm_statement (req_problem req),
                language = req_language req,
                code = req_code req,
                hints_used = req_hintsUsed req,
                verdict = Some (req_verdict req),
                time_complexity = req_timeComplexity req,
                space_complexity = req_spaceComplexity req,
                evaluation_markdown = req_evaluationMarkdown req,
                next_review_at = Some now_ctor,
                review_interval_days = Some 1,
                ease_factor = Some (5 / 2),
                company_style = req_companyStyle req,
                mock_session_id = req_mockSessionId req\<rparr>;
          d1 = d\<lparr>attempts := attempts d @ [a]\<rparr>;
          was_correct = (req_verdict req = ''correct'')
      in case calculate_next_review now_review a was_correct of
           (a', Inl err) \<Rightarrow> (d1, Inl err)
         | (a', Inr next_review) \<Rightarrow>
             (d\<lparr>attempts := attempts d @ [a']\<rparr>, Inr (attempt_id a')))"

section \<open>Due-review selection\<close>

text \<open>
  The rows of the user whose \<open>next_review_at\<close> is set and at or before the clock
  reading, by ascending \<open>next_review_at\<close>, at most \<open>limit\<close> of them (a negative
  limit is no limit in SQLite).
\<close>

definition is_due :: "datetime \<Rightarrow> string \<Rightarrow> attempt \<Rightarrow> bool" where
  "is_due now uid a =
     (user_id a = uid \<and> (case next_review_at a of None \<Rightarrow> False | Some t \<Rightarrow> t \<le> now))"

definition get_due_problems :: "datetime \<Rightarrow> db \<Rightarrow> string \<Rightarrow> int \<Rightarrow> attempt list" where
  "get_due_problems now d uid limit =
     (let due = sort_key (\<lambda>a. case next_review_at a of None \<Rightarrow> 0 | Some t \<Rightarrow> t)
                  (filter (is_due now uid) (attempts d))
      in if limit < 0 then due else take (nat limit) due)"

section \<open>Attempt lookup and review completion\<close>

definition get_attempt :: "db \<Rightarrow> int \<Rightarrow> error + attempt" where
  "get_attempt d aid =
     (case find (\<lambda>a. attempt_id a = aid) (attempts d) of
        None \<Rightarrow> Inl (HTTPException 404 ''Attempt not found'')
      | Some a \<Rightarrow> Inr a)"

text \<open>The response carries \<open>nextReviewAt\<close> and \<open>intervalDays\<close>.\<close>

definition complete_review ::
  "datetime \<Rightarrow> db \<Rightarrow> int \<Rightarrow> bool \<Rightarrow> db \<times> (error + (datetime \<times> int option))" where
  "complete_review now d aid was_correct =
     (case find (\<lambda>a. attempt_id a = aid) (attempts d) of
        None \<Rightarrow> (d, Inl (HTTPException 404 ''Attempt not found''))
      | Some a \<Rightarrow>
          (case calculate_next_review now a was_correct of
             (a', Inl err) \<Rightarrow> (d, Inl err)
           | (a', Inr next_review) \<Rightarrow>
               (d\<lparr>attempts := replace_first (\<lambda>x. attempt_id x = aid) a' (attempts d)\<rparr>,
                Inr (next_review, review_interval_days a'))))"

section \<open>Bookmarks\<close>

text \<open>The response \<open>{"success": True}\<close> is \<open>Inr True\<close>.\<close>

definition delete_bookmark :: "db \<Rightarrow> int \<Rightarrow> db \<times> (error + bool)" where
  "delete_bookmark d bid =
     (case find (\<lambda>b. bookmark_id b = bid) (bookmarks d) of
        None \<Rightarrow> (d, Inr True)
      | Some b \<Rightarrow> (d\<lparr>bookmarks := remove1 b (bookmarks d)\<rparr>, Inr True))"

section \<open>Mock sessions\<close>

definition get_mock_session :: "db \<Rightarrow> string \<Rightarrow> error + (mock_session \<times> attempt list)" where
  "get_mock_session d sid =
     (case find (\<lambda>s. session_id s = sid) (mock_sessions d) of
        None \<Rightarrow> Inl (HTTPException 404 ''Session not found'')
      | Some s \<Rightarrow> Inr (s, filter (\<lambda>p. mock_session_id p = Some sid) (attempts d)))"

text \<open>The scoring loop: 100 for \<open>correct\<close>, 50 for \<open>partially_correct\<close>, nothing otherwise.\<close>

definition add_score :: "attempt \<Rightarrow> int \<Rightarrow> int" where
  "add_score p score =
     (if verdict p = Some ''correct'' then score + 100
      else if verdict p = Some ''partially_correct'' then score + 50
      else score)"

text \<open>
  \<open>total_score\<close> starts as the integer 0, is divided by the number of problems when
  there is one, and is stored on the session in either case. The response carries
  \<open>score\<close> and \<open>problemsCompleted\<close>.
\<close>

definition complete_mock_session ::
  "datetime \<Rightarrow> db \<Rightarrow> string \<Rightarrow> db \<times> (error + (real \<times> nat))" where
  "complete_mock_session now d sid =
     (case find (\<lambda>s. session_id s = sid) (mock_sessions d) of
        None \<Rightarrow> (d, Inl (HTTPException 404 ''Session not found''))
      | Some s \<Rightarrow>
          (let problems = filter (\<lambda>p. mock_session_id p = Some sid) (attempts d);
               summed = fold add_score problems 0;
               score = (if problems \<noteq> [] then of_int summed / of_nat (length problems)
                        else of_int summed);
               s' = s\<lparr>completed_at := Some now,
                       problems_completed := int (length problems),
                       total_score := Some score\<rparr>
           in (d\<lparr>mock_sessions := replace_first (\<lambda>x. session_id x = sid) s' (mock_sessions d)\<rparr>,
               Inr (score, length problems))))"


section \<open>Analytics\<close>

record pattern_counts =
  pc_total :: nat
  pc_correct :: nat
  pc_incorrect :: nat
  pc_partial :: nat

definition count_pattern ::
  "attempt \<Rightarrow> string \<Rightarrow> (string \<rightharpoonup> pattern_counts) \<Rightarrow> (string \<rightharpoonup> pattern_counts)" where
  "count_pattern a pattern pattern_stats =
     (let s0 = (case pattern_stats pattern of
                  None \<Rightarrow> \<lparr>pc_total = 0, pc_correct = 0, pc_incorrect = 0, pc_partial = 0\<rparr>
                | Some s \<Rightarrow> s);
          s1 = s0\<lparr>pc_total := pc_total s0 + 1\<rparr>;
          s2 = (if verdict a = Some ''correct'' then s1\<lparr>pc_correct := pc_correct s1 + 1\<rparr>
                else if verdict a = Some ''incorrect'' then s1\<lparr>pc_incorrect := pc_incorrect s1 + 1\<rparr>
                else s1\<lparr>pc_partial := pc_partial s1 + 1\<rparr>)
      in pattern_stats(pattern \<mapsto> s2))"

definition get_pattern_stats :: "db \<Rightarrow> string \<Rightarrow> (string \<rightharpoonup> pattern_counts)" where
  "get_pattern_stats d uid =
     fold (\<lambda>a pattern_stats. fold (count_pattern a) (patterns a) pattern_stats)
       (filter (\<lambda>a. user_id a = uid) (attempts d)) Map.empty"

text \<open>Per difficulty, the pair of \<open>total\<close> and \<open>correct\<close>; a label that is not a key is skipped.\<close>

definition count_difficulty ::
  "attempt \<Rightarrow> (string \<rightharpoonup> nat \<times> nat) \<Rightarrow> (string \<rightharpoonup> nat \<times> nat)" where
  "count_difficulty a stats =
     (case stats (difficulty a) of
        None \<Rightarrow> stats
      | Some (t, c) \<Rightarrow>
          stats(difficulty a \<mapsto> (t + 1, if verdict a = Some ''correct'' then c + 1 else c)))"

definition get_difficulty_stats :: "db \<Rightarrow> string \<Rightarrow> (string \<rightharpoonup> nat \<times> nat)" where
  "get_difficulty_stats d uid =
     fold count_difficulty (filter (\<lambda>a. user_id a = uid) (attempts d))
       [''Easy'' \<mapsto> (0, 0), ''Medium'' \<mapsto> (0, 0), ''Hard'' \<mapsto> (0, 0)]"

text \<open>Grouping by week: the key of an attempt is the day of the Monday of its week.\<close>

definition count_week :: "attempt \<Rightarrow> (int \<rightharpoonup> nat) \<Rightarrow> (int \<rightharpoonup> nat)" where
  "count_week a weekly_data =
     (let week_start = created_at a - timedelta_days (weekday (created_at a));
          week_key = strftime_ymd week_start
      in weekly_data(week_key \<mapsto> (case weekly_data week_key of None \<Rightarrow> 0 | Some c \<Rightarrow> c) + 1))"

text \<open>The loop \<open>while current <= end_date\<close> that appends one bucket a week.\<close>

function fill_weeks ::
  "(int \<rightharpoonup> nat) \<Rightarrow> datetime \<Rightarrow> datetime \<Rightarrow> (int \<times> nat) list \<Rightarrow> (int \<times> nat) list" where
  "fill_weeks weekly_data end_date current result =
     (if current \<le> end_date
      then fill_weeks weekly_data end_date (current + timedelta_weeks 1)
             (result @ [(strftime_ymd current,
                         case weekly_data (strftime_ymd current) of None \<Rightarrow> 0 | Some c \<Rightarrow> c)])
      else result)"
  by pat_completeness auto
termination
  by (relation "measure (\<lambda>(w, e, c, r). nat (e - c + 1))")
     (auto simp: timedelta_weeks_def timedelta_days_def us_per_day_def)

text \<open>A bucket is the pair of \<open>week\<close> and \<open>count\<close>. The first argument is the clock reading.\<close>

definition get_weekly_activity :: "datetime \<Rightarrow> db \<Rightarrow> string \<Rightarrow> int \<Rightarrow> (int \<times> nat) list" where
  "get_weekly_activity now d uid weeks =
     (let end_date = now;
          start_date = end_date - timedelta_weeks weeks;
          selected = filter (\<lambda>a. user_id a = uid \<and> start_date \<le> created_at a) (attempts d);
          weekly_data = fold count_week selected Map.empty
      in fill_weeks weekly_data end_date start_date [])"

record analytics =
  totalAttempts :: nat
  correctAttempts :: nat
  accuracy :: real
  patternStats :: "string \<rightharpoonup> pattern_counts"
  difficultyStats :: "string \<rightharpoonup> nat \<times> nat"
  weeklyActivity :: "(int \<times> nat) list"

definition get_analytics :: "datetime \<Rightarrow> db \<Rightarrow> string \<Rightarrow> error + analytics" where
  "get_analytics now d uid =
     (let pattern_stats = get_pattern_stats d uid;
          difficulty_stats = get_difficulty_stats d uid;
          weekly_activity = get_weekly_activity now d uid 12;
          total_attempts = length (filter (\<lambda>a. user_id a = uid) (attempts d));
          correct_attempts =
            length (filter (\<lambda>a. user_id a = uid \<and> verdict a = Some ''correct'') (attempts d))
      in case (if total_attempts > 0
               then (case int_truediv (int correct_attempts) (int total_attempts) of
                       Inl err \<Rightarrow> Inl err
                     | Inr q \<Rightarrow> Inr (py_round1 (fl (q * 100))))
               else Inr 0)
         of Inl err \<Rightarrow> Inl err
          | Inr acc \<Rightarrow>
              Inr \<lparr>totalAttempts = total_attempts, correctAttempts = correct_attempts,
                   accuracy = acc, patternStats = pattern_stats,
                   difficultyStats = difficulty_stats, weeklyActivity = weekly_activity\<rparr>)"

section \<open>Verdict extraction\<close>

text \<open>
  \<open>str.lower()\<close> on the ASCII letters (a \<open>char\<close> is a byte), and the substring test
  \<open>sub in s\<close>.
\<close>

definition lower_char :: "char \<Rightarrow> char" where
  "lower_char c =
     (if 65 \<le> (of_char c :: nat) \<and> (of_char c :: nat) \<le> 90
      then char_of (of_char c + 32 :: nat) else c)"

definition str_lower :: "string \<Rightarrow> string" where
  "str_lower s = map lower_char s"

fun str_contains :: "string \<Rightarrow> string \<Rightarrow> bool" where
  "str_contains sub [] = (sub = [])"
| "str_contains sub (c # cs) = (prefix sub (c # cs) \<or> str_contains sub cs)"

text \<open>The verdict that \<open>evaluate_solution_endpoint\<close> reads off the evaluation text.\<close>

definition parse_verdict :: "string \<Rightarrow> string" where
  "parse_verdict evaluation_md =
     (let eval_lower = str_lower evaluation_md
      in if str_contains ''incorrect'' eval_lower \<or> str_contains ''wrong'' eval_lower
         then ''incorrect''
         else if str_contains ''correct'' eval_lower \<and> \<not> str_contains ''partially'' eval_lower
         then ''correct''
         else ''partially_correct'')"

section \<open>Example data\<close>

definition example_session :: mock_session where
  "example_session =
     \<lparr>session_id = ''s1'', ms_user_id = ''u'', ms_created_at = 0, completed_at = None,
      session_type = ''onsite'', time_limit_minutes = 45, num_problems = 3,
      difficulties = [''Medium'', ''Medium'', ''Hard''], problems_completed = 0,
      total_score = None\<rparr>"

text \<open>An attempt of user \<open>u\<close> linked to the session \<open>s1\<close>.\<close>

definition session_attempt :: "int \<Rightarrow> string option \<Rightarrow> attempt" where
  "session_attempt i v = (stored_attempt i ''u'' 0 v)\<lparr>mock_session_id := Some ''s1''\<rparr>"

definition example_db :: db where
  "example_db =
     \<lparr>attempts = [session_attempt 1 (Some ''correct''),
                  session_attempt 2 (Some ''partially_correct''),
                  session_attempt 3 (Some ''incorrect'')],
      bookmarks = [], mock_sessions = [example_session]\<rparr>"

section \<open>Properties of float rounding\<close>

text \<open>Rounding to 53 significant bits moves a positive number by at most one part in
  \<open>2 ^ 53\<close>.\<close>

lemma round_half_even_close: "\<bar>of_int (round_half_even x) - x\<bar> \<le> 1 / 2"
proof -
  have "of_int \<lfloor>x\<rfloor> \<le> x" "x < of_int \<lfloor>x\<rfloor> + 1" by linarith+
  then show ?thesis
    by (auto simp: round_half_even_def Let_def)
qed

lemma ilog2_le:
  assumes "0 < x"
  shows "2 powi (ilog2 x) \<le> x"
proof (cases "1 \<le> x")
  case True
  then have m: "0 < \<lfloor>x\<rfloor>" by linarith
  have k: "0 \<le> bitlen \<lfloor>x\<rfloor> - 1"
    using m bitlen_bounds [of "\<lfloor>x\<rfloor>"] by (auto simp: bitlen_alt_def)
  have "(2::int) ^ nat (bitlen \<lfloor>x\<rfloor> - 1) \<le> \<lfloor>x\<rfloor>"
    using bitlen_bounds [OF m] by simp
  then have "(2::real) ^ nat (bitlen \<lfloor>x\<rfloor> - 1) \<le> of_int \<lfloor>x\<rfloor>"
    by (metis of_int_le_iff of_int_numeral of_int_power)
  also have "\<dots> \<le> x" by linarith
  finally show ?thesis
    using True k by (simp add: ilog2_def power_int_def)
next
  case False
  then have x1: "x < 1" by simp
  then have "1 < 1 / x" using assms by simp
  then have m: "0 < \<lfloor>1 / x\<rfloor>" by linarith
  define k where "k = bitlen \<lfloor>1 / x\<rfloor> - 1"
  have k: "0 \<le> k"
    using m by (auto simp: k_def bitlen_alt_def)
  have "\<lfloor>1 / x\<rfloor> < 2 ^ nat (k + 1)"
    using bitlen_bounds [OF m] by (simp add: k_def)
  then have "\<lfloor>1 / x\<rfloor> + 1 \<le> 2 ^ nat (k + 1)" by simp
  then have "(of_int (\<lfloor>1 / x\<rfloor> + 1) :: real) \<le> of_int (2 ^ nat (k + 1))"
    by (simp only: of_int_le_iff)
  then have "(of_int \<lfloor>1 / x\<rfloor> :: real) + 1 \<le> 2 ^ nat (k + 1)" by simp
  moreover have "1 / x < of_int \<lfloor>1 / x\<rfloor> + 1" by linarith
  ultimately have "1 / x < 2 ^ nat (k + 1)" by linarith
  then have "1 < x * 2 ^ nat (k + 1)"
    using assms by (simp add: field_simps)
  then have lower: "2 powi (- k - 1) \<le> x"
    using k by (simp add: power_int_def nat_add_distrib field_simps)
  show ?thesis
  proof (cases "x * 2 ^ nat k = 1")
    case True
    have il: "ilog2 x = - k"
      using x1 True unfolding ilog2_def k_def by (simp add: Let_def)
    define P :: real where "P = 2 ^ nat k"
    have "0 < P" by (simp add: P_def)
    have "(2::real) powi k = P" using k by (simp add: power_int_def P_def)
    then have "2 powi (- k) = inverse P" by (simp add: power_int_minus)
    moreover have "x = inverse P"
      using True \<open>0 < P\<close> unfolding P_def [symmetric] by (simp add: field_simps)
    ultimately have "2 powi (- k) \<le> x" by simp
    then show ?thesis unfolding il .
  next
    case ne: False
    have il: "ilog2 x = - k - 1"
      using x1 ne unfolding ilog2_def k_def by (simp add: Let_def)
    show ?thesis unfolding il by (rule lower)
  qed
qed

lemma fl_error:
  assumes "0 < x"
  shows "\<bar>fl x - x\<bar> \<le> x / 2 ^ 53"
proof -
  define q :: real where "q = 2 powi (ilog2 \<bar>x\<bar> - 52)"
  define r :: real where "r = of_int (round_half_even (x / q))"
  define P :: real where "P = 2 ^ 52"
  have q: "0 < q" by (simp add: q_def)
  have P: "0 < P" by (simp add: P_def)
  have P53: "(2::real) ^ 53 = 2 * P" unfolding P_def by (simp only: power_Suc [symmetric]) simp
  have flx: "fl x = r * q"
    using assms by (simp add: fl_def q_def r_def Let_def)
  have "r * q - x = (r - x / q) * q"
    using q by (simp add: field_simps)
  then have "\<bar>r * q - x\<bar> = \<bar>r - x / q\<bar> * q"
    using q by (simp add: abs_mult)
  also have "\<dots> \<le> 1 / 2 * q"
    using round_half_even_close [of "x / q"] q unfolding r_def
    by (intro mult_right_mono) auto
  finally have err: "\<bar>fl x - x\<bar> \<le> q / 2" using flx by simp
  have "q = 2 powi (ilog2 x) / P"
    using assms by (simp add: q_def P_def power_int_diff)
  moreover have "2 powi (ilog2 x) / P \<le> x / P"
    using ilog2_le [OF assms] P by (intro divide_right_mono) auto
  ultimately have "q / 2 \<le> x / (2 * P)" by simp
  then show ?thesis using err unfolding P53 by linarith
qed

lemma fl_lower: "0 < x \<Longrightarrow> x - x / 2 ^ 53 \<le> fl x"
  using fl_error [of x] by linarith

lemma fl_upper: "0 < x \<Longrightarrow> fl x \<le> x + x / 2 ^ 53"
  using fl_error [of x] by linarith


lemma fl_ge99: "0 < x \<Longrightarrow> 99 / 100 * x \<le> fl x"
proof -
  assume x: "0 < x"
  have "x / 2 ^ 53 \<le> x / 100"
    using x by (intro divide_left_mono) auto
  then show ?thesis using fl_lower [OF x] by linarith
qed

lemma fl_le101: "0 < x \<Longrightarrow> fl x \<le> 101 / 100 * x"
proof -
  assume x: "0 < x"
  have "x / 2 ^ 53 \<le> x / 100"
    using x by (intro divide_left_mono) auto
  then show ?thesis using fl_upper [OF x] by linarith
qed

lemma fl_tiny: "0 < x \<Longrightarrow> x \<le> 3 \<Longrightarrow> \<bar>fl x - x\<bar> \<le> 1 / 1000"
proof -
  assume x: "0 < x" "x \<le> 3"
  have "x / 2 ^ 53 \<le> 3 / 2 ^ 53"
    using x by (intro divide_right_mono) auto
  also have "\<dots> \<le> (1 / 1000 :: real)" by simp
  finally show ?thesis using fl_error [OF x(1)] by linarith
qed

lemma literal_13: "1287 / 1000 \<le> fl (13 / 10)" "fl (13 / 10) \<le> 5 / 2"
  using fl_ge99 [of "13 / 10"] fl_le101 [of "13 / 10"] by simp_all

lemma literal_01: "99 / 1000 \<le> fl (1 / 10)" "fl (1 / 10) \<le> 101 / 1000"
  using fl_ge99 [of "1 / 10"] fl_le101 [of "1 / 10"] by simp_all

lemma literal_02: "198 / 1000 \<le> fl (2 / 10)" "fl (2 / 10) \<le> 202 / 1000"
  using fl_ge99 [of "2 / 10"] fl_le101 [of "2 / 10"] by simp_all

section \<open>Properties of the review scheduler\<close>

lemma interval_grows:
  assumes "1 \<le> (i::int)" "1287 / 1000 \<le> (e::real)"
  shows "of_int i \<le> fl (fl (of_int i) * e)"
proof -
  define x :: real where "x = of_int i"
  have x: "1 \<le> x" using assms(1) by (simp add: x_def)
  have fx: "99 / 100 * x \<le> fl x" using fl_ge99 [of x] x by simp
  have "fl x * (1287 / 1000) \<le> fl x * e"
    using fx x assms(2) by (intro mult_left_mono) auto
  then have y: "99 / 100 * x * (1287 / 1000) \<le> fl x * e" using fx by simp
  then have "0 < fl x * e" using x by linarith
  then have "99 / 100 * (fl x * e) \<le> fl (fl x * e)" by (rule fl_ge99)
  then show ?thesis using y x unfolding x_def [symmetric] by simp
qed

lemma ease_up:
  assumes "1287 / 1000 \<le> (e::real)" "e \<le> 5 / 2"
  shows "e \<le> fl (e + fl (1 / 10))"
proof -
  have "\<bar>fl (e + fl (1 / 10)) - (e + fl (1 / 10))\<bar> \<le> 1 / 1000"
    using literal_01 assms by (intro fl_tiny) auto
  then show ?thesis using literal_01 by linarith
qed

lemma ease_down:
  assumes "1287 / 1000 \<le> (e::real)" "e \<le> 5 / 2"
  shows "fl (e - fl (2 / 10)) \<le> e"
proof -
  have "\<bar>fl (e - fl (2 / 10)) - (e - fl (2 / 10))\<bar> \<le> 1 / 1000"
    using literal_02 assms by (intro fl_tiny) auto
  then show ?thesis using literal_02 by linarith
qed

lemma review_correct_cases:
  assumes "review_interval_days a = Some i" "ease_factor a = Some e"
    and "1 \<le> i" "fl (13 / 10) \<le> e"
  shows "calculate_next_review now a True =
     (let n = \<lfloor>fl (fl (of_int i) * e)\<rfloor>;
          a1 = a\<lparr>review_interval_days := Some n,
                  ease_factor := Some (min (5 / 2) (fl (e + fl (1 / 10))))\<rparr>
      in if float_limit \<le> fl (of_int i) \<or> float_limit \<le> fl (fl (of_int i) * e)
         then (a, Inl OverflowError)
         else if 999999999 < n then (a1, Inl OverflowError)
         else if datetime_ok (now + timedelta_days n)
         then (a1\<lparr>next_review_at := Some (now + timedelta_days n)\<rparr>,
               Inr (now + timedelta_days n))
         else (a1, Inl OverflowError))"
proof -
  have e: "1287 / 1000 \<le> e" using assms(4) literal_13(1) by linarith
  have fi: "0 < fl (of_int i)"
    using fl_ge99 [of "of_int i"] assms(3) by simp
  have p: "of_int i \<le> fl (fl (of_int i) * e)"
    by (rule interval_grows [OF assms(3) e])
  then have p1: "1 \<le> fl (fl (of_int i) * e)" using assms(3) by linarith
  then have n1: "1 \<le> \<lfloor>fl (fl (of_int i) * e)\<rfloor>" by simp
  have abs1: "\<bar>fl (of_int i)\<bar> = fl (of_int i)" using fi by simp
  have abs2: "\<bar>fl (fl (of_int i) * e)\<bar> = fl (fl (of_int i) * e)" using p1 by simp
  have abs3: "\<bar>\<lfloor>fl (fl (of_int i) * e)\<rfloor>\<bar> = \<lfloor>fl (fl (of_int i) * e)\<rfloor>" using n1 by simp
  have pi: "py_int (fl (fl (of_int i) * e)) = \<lfloor>fl (fl (of_int i) * e)\<rfloor>"
    using p1 by (simp add: py_int_def)
  show ?thesis
    by (simp add: calculate_next_review_def float_of_int_def Let_def abs1 abs2 abs3 pi
        assms(1,2))
qed

lemma review_incorrect_cases:
  assumes "ease_factor a = Some e"
  shows "calculate_next_review now a False =
     (let a1 = a\<lparr>review_interval_days := Some 1,
                  ease_factor := Some (max (fl (13 / 10)) (fl (e - fl (2 / 10))))\<rparr>
      in if datetime_ok (now + timedelta_days 1)
         then (a1\<lparr>next_review_at := Some (now + timedelta_days 1)\<rparr>,
               Inr (now + timedelta_days 1))
         else (a1, Inl OverflowError))"
  using assms by (simp add: calculate_next_review_def Let_def)


lemma float_limit_big: "2000000000 \<le> float_limit"
  by (simp add: float_limit_def)

lemma no_float_overflow:
  assumes "1 \<le> (i::int)" "1287 / 1000 \<le> (e::real)"
    and "\<lfloor>fl (fl (of_int i) * e)\<rfloor> \<le> 999999999"
  shows "\<not> (float_limit \<le> fl (of_int i) \<or> float_limit \<le> fl (fl (of_int i) * e))"
proof -
  have "fl (fl (of_int i) * e) < of_int \<lfloor>fl (fl (of_int i) * e)\<rfloor> + 1" by linarith
  also have "\<dots> \<le> 1000000000" using assms(3) by linarith
  finally have p: "fl (fl (of_int i) * e) < 1000000000" .
  have "(of_int i :: real) \<le> fl (fl (of_int i) * e)"
    by (rule interval_grows [OF assms(1,2)])
  moreover have "fl (of_int i) \<le> 101 / 100 * of_int i"
    using assms(1) by (intro fl_le101) simp
  ultimately have "fl (of_int i) < 2000000000" using p by linarith
  then show ?thesis using p float_limit_big by linarith
qed

lemma domain_ease: "fl (13 / 10) \<le> e \<Longrightarrow> 1287 / 1000 \<le> e"
  using literal_13(1) by linarith

lemma new_ease_correct:
  assumes "fl (13 / 10) \<le> e" "e \<le> 5 / 2"
  shows "e \<le> min (5 / 2) (fl (e + fl (1 / 10)))" "min (5 / 2) (fl (e + fl (1 / 10))) \<le> 5 / 2"
  using ease_up [OF domain_ease [OF assms(1)] assms(2)] assms(2) by simp_all

lemma new_ease_incorrect:
  assumes "fl (13 / 10) \<le> e" "e \<le> 5 / 2"
  shows "fl (13 / 10) \<le> max (fl (13 / 10)) (fl (e - fl (2 / 10)))"
    "max (fl (13 / 10)) (fl (e - fl (2 / 10))) \<le> e"
  using ease_down [OF domain_ease [OF assms(1)] assms(2)] assms(1) by simp_all

lemma review_fields_correct:
  assumes "review_interval_days a = Some i" "ease_factor a = Some e"
    and "1 \<le> i" "fl (13 / 10) \<le> e" "e \<le> 5 / 2"
  shows "\<exists>i' e'. review_interval_days (fst (calculate_next_review now a True)) = Some i'
           \<and> ease_factor (fst (calculate_next_review now a True)) = Some e'
           \<and> i \<le> i' \<and> e \<le> e' \<and> e' \<le> 5 / 2"
proof -
  have "(of_int i :: real) \<le> fl (fl (of_int i) * e)"
    by (rule interval_grows [OF assms(3) domain_ease [OF assms(4)]])
  then have "i \<le> \<lfloor>fl (fl (of_int i) * e)\<rfloor>" by (simp add: le_floor_iff)
  then show ?thesis
    using assms(1,2,5) new_ease_correct [OF assms(4,5)]
    unfolding review_correct_cases [OF assms(1-4)] Let_def by auto
qed

lemma review_fields_incorrect:
  assumes "ease_factor a = Some e" "fl (13 / 10) \<le> e" "e \<le> 5 / 2"
  shows "\<exists>e'. review_interval_days (fst (calculate_next_review now a False)) = Some 1
           \<and> ease_factor (fst (calculate_next_review now a False)) = Some e'
           \<and> fl (13 / 10) \<le> e' \<and> e' \<le> e"
  using new_ease_incorrect [OF assms(2,3)]
  unfolding review_incorrect_cases [OF assms(1)] Let_def by auto

lemma in_domain_review: "in_domain a \<Longrightarrow> in_domain (fst (calculate_next_review now a w))"
proof -
  assume "in_domain a"
  then obtain i e where ie: "review_interval_days a = Some i" "ease_factor a = Some e"
      "1 \<le> i" "fl (13 / 10) \<le> e" "e \<le> 5 / 2"
    by (auto simp: in_domain_def split: option.splits)
  show ?thesis
  proof (cases w)
    case True
    then show ?thesis
      using review_fields_correct [OF ie, of now] ie by (auto simp: in_domain_def)
  next
    case False
    then show ?thesis
      using review_fields_incorrect [OF ie(2,4,5), of now] ie by (auto simp: in_domain_def)
  qed
qed

lemma review_all_in_domain: "in_domain a \<Longrightarrow> in_domain (review_all a ops)"
proof (induction ops arbitrary: a)
  case Nil
  then show ?case by simp
next
  case (Cons p ops)
  obtain now w where p: "p = (now, w)" by (cases p)
  obtain a' r where c: "calculate_next_review now a w = (a', r)"
    by (cases "calculate_next_review now a w")
  have "in_domain a'" using in_domain_review [OF Cons.prems, of now w] c by simp
  then show ?case
    using Cons.IH Cons.prems p c by (cases r) simp_all
qed

text \<open>Evaluations of the float operations on the inputs of the examples.\<close>

lemma example_interval_2: "\<lfloor>fl (fl (of_int 1) * (5 / 2))\<rfloor> = (2::int)"
  by code_simp

lemma example_ease_18: "max (fl (13 / 10)) (fl (2 - fl (2 / 10))) = fl (9 / 5)"
  by code_simp

lemma example_interval_big: "\<lfloor>fl (fl (of_int 1780262) * (5 / 2))\<rfloor> = (4450655::int)"
  by code_simp

lemma example_ease_25: "min (5 / 2) (fl (5 / 2 + fl (1 / 10))) = 5 / 2"
  using new_ease_correct [of "5 / 2"] literal_13(2) by simp


lemma stored_in_domain: "in_domain (stored_attempt i u t v)"
  using literal_13(2) by (simp add: in_domain_def stored_attempt_def)

lemma overflow_example:
  "snd (calculate_next_review (739000 * us_per_day)
          ((stored_attempt 1 ''u'' 0 None)\<lparr>review_interval_days := Some 1780262\<rparr>) True) =
     Inl OverflowError"
proof -
  have "calculate_next_review (739000 * us_per_day)
          ((stored_attempt 1 ''u'' 0 None)\<lparr>review_interval_days := Some 1780262\<rparr>) True =
        (let n = \<lfloor>fl (fl (of_int 1780262) * (5 / 2))\<rfloor>;
          a1 = ((stored_attempt 1 ''u'' 0 None)\<lparr>review_interval_days := Some 1780262\<rparr>)\<lparr>review_interval_days := Some n,
                  ease_factor := Some (min (5 / 2) (fl (5 / 2 + fl (1 / 10))))\<rparr>
      in if float_limit \<le> fl (of_int 1780262) \<or> float_limit \<le> fl (fl (of_int 1780262) * (5 / 2))
         then (((stored_attempt 1 ''u'' 0 None)\<lparr>review_interval_days := Some 1780262\<rparr>), Inl OverflowError)
         else if 999999999 < n then (a1, Inl OverflowError)
         else if datetime_ok (739000 * us_per_day + timedelta_days n)
         then (a1\<lparr>next_review_at := Some (739000 * us_per_day + timedelta_days n)\<rparr>,
               Inr (739000 * us_per_day + timedelta_days n))
         else (a1, Inl OverflowError))"
    using literal_13(2) by (intro review_correct_cases) (simp_all add: stored_attempt_def)
  then show ?thesis
    unfolding example_interval_big Let_def
    by (simp add: datetime_ok_def datetime_max_def timedelta_days_def us_per_day_def)
qed




text \<open>
  Claim C5. From an attempt in the documented domain (interval at least 1, ease factor
  in \<open>[1.3, 2.5]\<close>), the attempt stored after any finite sequence of review
  completions is in the domain again, and so is the attempt as a single call of the
  scheduler leaves it, whether the call returns or raises; in particular after a
  streak of \<open>n\<close> correct answers and after a streak of \<open>n\<close> incorrect answers, for
  every \<open>n\<close>.
\<close>

theorem review_all_keeps_domain:
  assumes "in_domain a"
  shows "in_domain (review_all a ops)
       \<and> in_domain (fst (calculate_next_review now a was_correct))
       \<and> in_domain (review_all a (replicate n (now, True)))
       \<and> in_domain (review_all a (replicate n (now, False)))"
  using review_all_in_domain [OF assms] in_domain_review [OF assms] by simp

theorem review_all_keeps_domain_witness:
  "in_domain (stored_attempt 1 ''u'' 0 None)
   \<and> (in_domain (review_all (stored_attempt 1 ''u'' 0 None) [(0, True), (5, False), (9, True)])
      \<and> in_domain (fst (calculate_next_review 7 (stored_attempt 1 ''u'' 0 None) True))
      \<and> in_domain (review_all (stored_attempt 1 ''u'' 0 None) (replicate 40 (7, True)))
      \<and> in_domain (review_all (stored_attempt 1 ''u'' 0 None) (replicate 40 (7, False))))"
  by (rule conjI [OF stored_in_domain review_all_keeps_domain [OF stored_in_domain]])



text \<open>
  Claim C7, as stated, asks for a pure function that raises no error and does not touch
  the attempt. The scheduler assigns \<open>review_interval_days\<close>, \<open>ease_factor\<close> and
  \<open>next_review_at\<close> on the attempt it is given: after an incorrect review of an attempt
  with interval 10 and ease 2.0 the attempt holds interval 1, ease 1.8 and a review
  date, and is no longer the attempt that was passed in. And on the attempt with
  interval 1780262 and ease 2.5, itself in the documented domain, a correct review
  raises OverflowError.
\<close>

theorem calculate_next_review_mutates:
  "calculate_next_review (739000 * us_per_day)
      ((stored_attempt 1 ''u'' 0 None)\<lparr>review_interval_days := Some 10, ease_factor := Some 2\<rparr>) False =
     ((stored_attempt 1 ''u'' 0 None)
        \<lparr>review_interval_days := Some 1, ease_factor := Some (fl (9 / 5)),
         next_review_at := Some (739001 * us_per_day)\<rparr>, Inr (739001 * us_per_day))
   \<and> (stored_attempt 1 ''u'' 0 None)
        \<lparr>review_interval_days := Some 1, ease_factor := Some (fl (9 / 5)),
         next_review_at := Some (739001 * us_per_day)\<rparr>
      \<noteq> (stored_attempt 1 ''u'' 0 None)\<lparr>review_interval_days := Some 10, ease_factor := Some 2\<rparr>
   \<and> snd (calculate_next_review (739000 * us_per_day)
          ((stored_attempt 1 ''u'' 0 None)\<lparr>review_interval_days := Some 1780262\<rparr>) True) =
       Inl OverflowError"
proof -
  have "calculate_next_review (739000 * us_per_day)
      ((stored_attempt 1 ''u'' 0 None)\<lparr>review_interval_days := Some 10, ease_factor := Some 2\<rparr>) False =
     ((stored_attempt 1 ''u'' 0 None)
        \<lparr>review_interval_days := Some 1, ease_factor := Some (fl (9 / 5)),
         next_review_at := Some (739001 * us_per_day)\<rparr>, Inr (739001 * us_per_day))"
    using review_incorrect_cases
      [of "(stored_attempt 1 ''u'' 0 None)\<lparr>review_interval_days := Some 10, ease_factor := Some 2\<rparr>"
          2 "739000 * us_per_day"] example_ease_18
    by (simp add: stored_attempt_def datetime_ok_def datetime_max_def timedelta_days_def
        us_per_day_def)
  then show ?thesis
    using overflow_example by (simp add: stored_attempt_def us_per_day_def)
qed

text \<open>
  Claim C7, amended. On an attempt of the documented domain, let \<open>n\<close> be the new
  interval (the floor of the float product of interval and ease factor for a correct
  review, 1 for an incorrect one). If \<open>n\<close> is at most 999999999 and the clock reading
  plus \<open>n\<close> days is a date up to \<open>datetime.max\<close>, the scheduler raises no error: it
  overwrites \<open>review_interval_days\<close>, \<open>ease_factor\<close> and \<open>next_review_at\<close> of the
  attempt, leaves every other field as it was, and returns the new
  \<open>next_review_at\<close>, the clock reading plus \<open>n\<close> days. Otherwise it
  raises OverflowError, having assigned at most the interval and the ease factor.
  Committing the attempt is left to the caller.
\<close>

theorem calculate_next_review_frame:
  assumes "review_interval_days a = Some i" and "ease_factor a = Some e"
    and "1 \<le> i" and "fl (13 / 10) \<le> e" and "e \<le> 5 / 2"
    and "n = (if was_correct then \<lfloor>fl (fl (of_int i) * e)\<rfloor> else 1)"
  shows "\<exists>e'. if n \<le> 999999999 \<and> datetime_ok (now + timedelta_days n)
              then calculate_next_review now a was_correct =
                     (a\<lparr>review_interval_days := Some n, ease_factor := Some e',
                        next_review_at := Some (now + timedelta_days n)\<rparr>,
                      Inr (now + timedelta_days n))
              else snd (calculate_next_review now a was_correct) = Inl OverflowError
                 \<and> (fst (calculate_next_review now a was_correct) = a
                    \<or> fst (calculate_next_review now a was_correct) =
                        a\<lparr>review_interval_days := Some n, ease_factor := Some e'\<rparr>)"
proof (cases was_correct)
  case True
  then have wc: "was_correct = True" by simp
  have n: "n = \<lfloor>fl (fl (of_int i) * e)\<rfloor>" using assms(6) True by simp
  have nf: "n \<le> 999999999 \<Longrightarrow>
      \<not> (float_limit \<le> fl (of_int i) \<or> float_limit \<le> fl (fl (of_int i) * e))"
    using no_float_overflow [OF assms(3) domain_ease [OF assms(4)]] unfolding n .
  show ?thesis
    apply (rule exI [of _ "min (5 / 2) (fl (e + fl (1 / 10)))"])
    using nf unfolding wc review_correct_cases [OF assms(1-4)] n [symmetric] Let_def
    by auto
next
  case False
  then have wc: "was_correct = False" by simp
  have n: "n = 1" using assms(6) False by simp
  show ?thesis
    apply (rule exI [of _ "max (fl (13 / 10)) (fl (e - fl (2 / 10)))"])
    unfolding wc n review_incorrect_cases [OF assms(2)] Let_def
    by auto
qed

theorem calculate_next_review_frame_witness:
  "\<exists>e'. calculate_next_review (739000 * us_per_day) (stored_attempt 1 ''u'' 0 None) True =
     ((stored_attempt 1 ''u'' 0 None)
        \<lparr>review_interval_days := Some 2, ease_factor := Some e',
         next_review_at := Some (739002 * us_per_day)\<rparr>, Inr (739002 * us_per_day))"
  using calculate_next_review_frame
      [of "stored_attempt 1 ''u'' 0 None" 1 "5 / 2" 2 True "739000 * us_per_day"]
    example_interval_2 literal_13(2)
  by (simp add: stored_attempt_def datetime_ok_def datetime_max_def timedelta_days_def
      us_per_day_def)

section \<open>Saving and due selection\<close>

lemma fresh_row_review:
  assumes "review_interval_days a = Some 1" "ease_factor a = Some (5 / 2)"
  shows "calculate_next_review t a w =
     (let n = (if w then 2 else 1);
          a1 = a\<lparr>review_interval_days := Some n,
                  ease_factor := Some (if w then 5 / 2 else fl (23 / 10))\<rparr>
      in if datetime_ok (t + timedelta_days n)
         then (a1\<lparr>next_review_at := Some (t + timedelta_days n)\<rparr>, Inr (t + timedelta_days n))
         else (a1, Inl OverflowError))"
proof (cases w)
  case True
  have "\<lfloor>fl (fl (of_int 1) * (5 / 2))\<rfloor> \<le> (999999999::int)"
    unfolding example_interval_2 by simp
  then have nf: "\<not> (float_limit \<le> fl (of_int 1) \<or> float_limit \<le> fl (fl (of_int 1) * (5 / 2)))"
    by (intro no_float_overflow) simp_all
  have "calculate_next_review t a True =
      (if datetime_ok (t + timedelta_days 2)
       then (a\<lparr>review_interval_days := Some 2, ease_factor := Some (5 / 2),
               next_review_at := Some (t + timedelta_days 2)\<rparr>, Inr (t + timedelta_days 2))
       else (a\<lparr>review_interval_days := Some 2, ease_factor := Some (5 / 2)\<rparr>,
             Inl OverflowError))"
    unfolding review_correct_cases [OF assms order_refl literal_13(2), of t]
      Let_def example_interval_2 example_ease_25
    using nf by simp
  then show ?thesis using True by (simp add: Let_def)
next
  case False
  have "max (fl (13 / 10)) (fl (5 / 2 - fl (2 / 10))) = fl (23 / 10)" by code_simp
  then show ?thesis
    using False review_incorrect_cases [OF assms(2), of t] by (simp add: Let_def)
qed

lemma timedelta_days_pos: "0 < n \<Longrightarrow> 0 < timedelta_days n"
  by (simp add: timedelta_days_def us_per_day_def)

text \<open>
  Claim C2 says that after \<open>save_attempt\<close> the stored attempt is due at once. The code
  sets \<open>next_review_at\<close> to the clock reading in the constructor, and then runs the
  scheduler on the new row: the stored \<open>next_review_at\<close> is the clock reading of the
  scheduler plus two days for the verdict \<open>correct\<close> and plus one day for any other
  verdict, and the due selection at that clock reading is what it was before the save.
  Only when that date lies past \<open>datetime.max\<close> does the scheduler raise instead, and
  the row stays as the constructor made it.
\<close>

theorem save_attempt_schedules_later:
  "(let n = (if req_verdict req = ''correct'' then 2 else 1);
        r = save_attempt t0 t1 t2 d req
    in if datetime_ok (t2 + timedelta_days n)
       then snd r = Inr (next_attempt_id d)
          \<and> map next_review_at (attempts (fst r)) =
              map next_review_at (attempts d) @ [Some (t2 + timedelta_days n)]
          \<and> get_due_problems t2 (fst r) uid limit = get_due_problems t2 d uid limit
       else snd r = Inl OverflowError
          \<and> map next_review_at (attempts (fst r)) =
              map next_review_at (attempts d) @ [Some t0])"
proof -
  have "0 < timedelta_days (if req_verdict req = ''correct'' then 2 else 1)"
    by (simp add: timedelta_days_pos)
  then have "\<not> t2 + timedelta_days (if req_verdict req = ''correct'' then 2 else 1) \<le> t2"
    by linarith
  then show ?thesis
    by (simp add: save_attempt_def fresh_row_review Let_def get_due_problems_def is_due_def)
qed

section \<open>Weekly activity\<close>

text \<open>
  Claim C3 says that the buckets are keyed by Mondays and that every attempt of the
  window is counted in the bucket of its week. Here the clock reads a Wednesday (day
  702), the window is 12 weeks, and the only attempt of the user was created the day
  before (day 701, a Tuesday; its week key is the Monday, day 700). The 13 buckets
  returned are keyed by the Wednesdays 618, 625, ..., 702 and every count is 0.
\<close>

theorem weekly_activity_misses_attempt:
  "get_weekly_activity (702 * us_per_day + 7)
     \<lparr>attempts = [stored_attempt 1 ''u'' (701 * us_per_day + 5) (Some ''correct'')],
      bookmarks = [], mock_sessions = []\<rparr> ''u'' 12 =
     [(618, 0), (625, 0), (632, 0), (639, 0), (646, 0), (653, 0), (660, 0), (667, 0),
      (674, 0), (681, 0), (688, 0), (695, 0), (702, 0)]
   \<and> weekday (702 * us_per_day + 7) = 2
   \<and> strftime_ymd (701 * us_per_day + 5 - timedelta_days (weekday (701 * us_per_day + 5))) = 700"
  by (simp add: get_weekly_activity_def stored_attempt_def count_week_def
      timedelta_weeks_def timedelta_days_def us_per_day_def weekday_def date_of_def
      strftime_ymd_def)

section \<open>Mock-session scoring\<close>






section \<open>Accuracy\<close>

lemma count_correct_le:
  "length (filter (\<lambda>a. P a \<and> Q a) xs) \<le> length (filter P xs)"
  by (induction xs) auto

lemma int_truediv_counts:
  assumes "c \<le> n" "0 < n"
  shows "int_truediv (int c) (int n) = Inr (fl (real c / real n))"
proof (cases "c = 0")
  case True
  then show ?thesis using assms(2) float_limit_big by (simp add: int_truediv_def fl_def)
next
  case False
  then have x: "0 < real c / real n" "real c / real n \<le> 1"
    using assms by simp_all
  have "0 < fl (real c / real n)" using fl_ge99 [OF x(1)] x(1) by simp
  moreover have "fl (real c / real n) \<le> 101 / 100"
    using fl_le101 [OF x(1)] x(2) by simp
  ultimately have "\<not> float_limit \<le> \<bar>fl (real c / real n)\<bar>"
    using float_limit_big by simp
  then show ?thesis using assms(2) by (simp add: int_truediv_def)
qed

lemma product_close:
  assumes "c \<le> n" "0 < n"
  shows "\<bar>fl (fl (real c / real n) * 100) - real c / real n * 100\<bar> \<le> 1 / 10 ^ 10"
proof (cases "c = 0")
  case True
  then show ?thesis by (simp add: fl_def)
next
  case False
  define x where "x = real c / real n"
  have x: "0 < x" "x \<le> 1" using assms False by (simp_all add: x_def)
  have q: "\<bar>fl x - x\<bar> \<le> x / 2 ^ 53" by (rule fl_error [OF x(1)])
  have "x / 2 ^ 53 \<le> 1 / 2 ^ 53" using x by (intro divide_right_mono) auto
  then have q1: "\<bar>fl x - x\<bar> \<le> 1 / 2 ^ 53" using q by linarith
  have qpos: "0 < fl x * 100" using fl_ge99 [OF x(1)] x(1) by simp
  have qle: "fl x * 100 \<le> 101" using fl_le101 [OF x(1)] x(2) by simp
  have "\<bar>fl (fl x * 100) - fl x * 100\<bar> \<le> fl x * 100 / 2 ^ 53" by (rule fl_error [OF qpos])
  also have "\<dots> \<le> 101 / 2 ^ 53" using qle by (intro divide_right_mono) auto
  finally have p: "\<bar>fl (fl x * 100) - fl x * 100\<bar> \<le> 101 / 2 ^ 53" .
  have "\<bar>fl (fl x * 100) - x * 100\<bar> \<le> 101 / 2 ^ 53 + 100 * (1 / 2 ^ 53)"
    using p q1 by linarith
  also have "\<dots> \<le> (1 / 10 ^ 10 :: real)" by simp
  finally show ?thesis unfolding x_def .
qed

lemma py_round1_tenths:
  "\<exists>k::int. py_round1 x = fl (of_int k / 10) \<and> \<bar>of_int k / 10 - x\<bar> \<le> 1 / 20"
proof -
  have "\<bar>of_int (round_half_even (x * 10)) - x * 10\<bar> \<le> 1 / 2"
    by (rule round_half_even_close)
  then have "\<bar>of_int (round_half_even (x * 10)) / 10 - x\<bar> \<le> 1 / 20" by linarith
  then show ?thesis unfolding py_round1_def by blast
qed

lemma get_analytics_result:
  "get_analytics now d uid =
     Inr \<lparr>totalAttempts = length (filter (\<lambda>a. user_id a = uid) (attempts d)),
          correctAttempts =
            length (filter (\<lambda>a. user_id a = uid \<and> verdict a = Some ''correct'') (attempts d)),
          accuracy =
            (if length (filter (\<lambda>a. user_id a = uid) (attempts d)) = 0 then 0
             else py_round1 (fl (fl
               (real (length (filter (\<lambda>a. user_id a = uid \<and> verdict a = Some ''correct'') (attempts d)))
                / real (length (filter (\<lambda>a. user_id a = uid) (attempts d)))) * 100))),
          patternStats = get_pattern_stats d uid,
          difficultyStats = get_difficulty_stats d uid,
          weeklyActivity = get_weekly_activity now d uid 12\<rparr>"
  using int_truediv_counts [OF count_correct_le [of "\<lambda>a. user_id a = uid" "\<lambda>a. verdict a = Some ''correct''" "attempts d"]]
  by (simp add: get_analytics_def Let_def)

text \<open>
  Claim C8. \<open>get_analytics\<close> always returns a response and never a division error. With
  \<open>n\<close> the number of the user's attempts and \<open>c\<close> the number of those with the verdict
  \<open>correct\<close>, the accuracy is 0 when \<open>n = 0\<close>, and otherwise it is the float
  \<open>c / n * 100\<close> rounded to one decimal place by \<open>round\<close>: the double nearest to a
  multiple \<open>k / 10\<close> of one tenth that is at most 0.05 away from that float, which
  itself differs from the exact ratio by at most \<open>1 / 10 ^ 10\<close>.
\<close>

theorem get_analytics_accuracy:
  "\<exists>r. get_analytics now d uid = Inr r
     \<and> (let n = length (filter (\<lambda>a. user_id a = uid) (attempts d));
             c = length (filter (\<lambda>a. user_id a = uid \<and> verdict a = Some ''correct'') (attempts d));
             p = fl (fl (real c / real n) * 100)
         in totalAttempts r = n \<and> correctAttempts r = c
            \<and> (if n = 0 then accuracy r = 0
                else accuracy r = py_round1 p
                   \<and> (\<exists>k::int. accuracy r = fl (of_int k / 10) \<and> \<bar>of_int k / 10 - p\<bar> \<le> 1 / 20)
                   \<and> \<bar>p - real c / real n * 100\<bar> \<le> 1 / 10 ^ 10))"
  unfolding get_analytics_result Let_def
  using py_round1_tenths
    product_close [OF count_correct_le [of "\<lambda>a. user_id a = uid" "\<lambda>a. verdict a = Some ''correct''" "attempts d"]]
  by simp

text \<open>
  The rounding follows the float, not the exact ratio: 23 of 80 is the float
  28.749999999999996 and rounds to 28.7, 49 of 80 rounds to 61.3, 1 of 3 to 33.3.
\<close>

lemma accuracy_23_of_80: "py_round1 (fl (fl (23 / 80) * 100)) = fl (287 / 10)"
  by code_simp

lemma accuracy_49_of_80: "py_round1 (fl (fl (49 / 80) * 100)) = fl (613 / 10)"
  by code_simp

lemma accuracy_1_of_3: "py_round1 (fl (fl (1 / 3) * 100)) = fl (333 / 10)"
  by code_simp

section \<open>Lookups that find nothing\<close>

lemma find_None_id: "k \<notin> f ` set xs \<Longrightarrow> find (\<lambda>x. f x = k) xs = None"
  by (auto simp: find_None_iff)

text \<open>
  Claim C9, as stated, has the deletion of a bookmark that does not exist answered by
  not-found. \<open>delete_bookmark\<close> deletes only if the bookmark is found and answers
  \<open>{"success": True}\<close> in either case.
\<close>

theorem delete_bookmark_missing_succeeds:
  "delete_bookmark \<lparr>attempts = [], bookmarks = [], mock_sessions = []\<rparr> 5 =
     (\<lparr>attempts = [], bookmarks = [], mock_sessions = []\<rparr>, Inr True)"
  by (simp add: delete_bookmark_def)

text \<open>
  Claim C9, amended. Looking up an attempt by an id that no attempt has
  (\<open>get_attempt\<close>, \<open>complete_review\<close>) raises the 404 "Attempt not found", and looking up
  a session by an id that no session has (\<open>get_mock_session\<close>,
  \<open>complete_mock_session\<close>) raises the 404 "Session not found", the store unchanged.
  Deleting a bookmark by an id that no bookmark has answers success and leaves the store
  unchanged.
\<close>

theorem not_found_responses:
  assumes "aid \<notin> attempt_id ` set (attempts d)"
    and "sid \<notin> session_id ` set (mock_sessions d)"
    and "bid \<notin> bookmark_id ` set (bookmarks d)"
  shows "get_attempt d aid = Inl (HTTPException 404 ''Attempt not found'')
       \<and> complete_review now d aid was_correct = (d, Inl (HTTPException 404 ''Attempt not found''))
       \<and> get_mock_session d sid = Inl (HTTPException 404 ''Session not found'')
       \<and> complete_mock_session now d sid = (d, Inl (HTTPException 404 ''Session not found''))
       \<and> delete_bookmark d bid = (d, Inr True)"
  using find_None_id [OF assms(1)] find_None_id [OF assms(2)] find_None_id [OF assms(3)]
  by (simp add: get_attempt_def complete_review_def get_mock_session_def
      complete_mock_session_def delete_bookmark_def)

theorem not_found_responses_witness:
  "get_attempt example_db 7 = Inl (HTTPException 404 ''Attempt not found'')
   \<and> complete_review 0 example_db 7 True =
       (example_db, Inl (HTTPException 404 ''Attempt not found''))
   \<and> get_mock_session example_db ''s2'' = Inl (HTTPException 404 ''Session not found'')
   \<and> complete_mock_session 0 example_db ''s2'' =
       (example_db, Inl (HTTPException 404 ''Session not found''))
   \<and> delete_bookmark example_db 5 = (example_db, Inr True)"
  using not_found_responses [of 7 example_db "''s2''" 5 0 True]
  by (simp add: example_db_def example_session_def session_attempt_def stored_attempt_def)

section \<open>Verdict extraction\<close>

lemma str_contains_sublist: "str_contains sub s = sublist sub s"
  by (induction s) (auto simp: sublist_Cons_right)

text \<open>
  Claim C10. On the lowercased evaluation text: if \<open>incorrect\<close> or \<open>wrong\<close> occurs in
  it, the verdict is \<open>incorrect\<close>; otherwise, if \<open>correct\<close> occurs and \<open>partially\<close> does
  not, the verdict is \<open>correct\<close>; otherwise it is \<open>partially_correct\<close>. A text with
  \<open>incorrect\<close> in it also has \<open>correct\<close> in it, and its verdict is \<open>incorrect\<close>.
  Occurrence is \<open>sublist\<close>: the text is some prefix, the word, and some suffix.
\<close>

theorem parse_verdict_priority:
  "parse_verdict md =
     (if sublist ''incorrect'' (str_lower md) \<or> sublist ''wrong'' (str_lower md) then ''incorrect''
      else if sublist ''correct'' (str_lower md) \<and> \<not> sublist ''partially'' (str_lower md)
      then ''correct''
      else ''partially_correct'')
   \<and> (sublist ''incorrect'' (str_lower md) \<longrightarrow>
        sublist ''correct'' (str_lower md) \<and> parse_verdict md = ''incorrect'')"
proof -
  have "sublist ''correct'' ''incorrect''"
    using sublist_appendI [of "''correct''" "''in''" "[]"] by simp
  then have "sublist ''incorrect'' (str_lower md) \<Longrightarrow> sublist ''correct'' (str_lower md)"
    by (rule sublist_order.order_trans)
  then show ?thesis
    by (auto simp: parse_verdict_def Let_def str_contains_sublist)
qed

theorem parse_verdict_priority_witness:
  "sublist ''incorrect'' (str_lower ''Incorrect: fails on empty input'')
   \<and> sublist ''correct'' (str_lower ''Incorrect: fails on empty input'')
   \<and> parse_verdict ''Incorrect: fails on empty input'' = ''incorrect''"
proof -
  have "str_contains ''incorrect'' (str_lower ''Incorrect: fails on empty input'')"
    by code_simp
  then show ?thesis
    using parse_verdict_priority [of "''Incorrect: fails on empty input''"]
    by (simp add: str_contains_sublist)
qed

end
